theory Spec2Isabelle
  imports Complex_Main "HOL-Library.Char_ord" "HOL-Library.List_Lexorder"
begin

section \<open>JavaScript strings and the built-ins the parser calls\<close>

text \<open>
  A JavaScript string is modelled as a \<open>string\<close> whose characters are code units below
  256. On that range the class \<open>\s\<close> of a regular expression, and the characters
  removed by \<open>String.prototype.trim\<close>, are TAB, LF, VT, FF, CR, SPACE and NBSP; the
  dot of a regular expression without the \<open>s\<close> flag matches every character except
  the line terminators LF and CR; \<open>\d\<close> is an ASCII digit.
\<close>

definition NL :: char where
  "NL = CHR 0x0A"

definition is_digit :: "char \<Rightarrow> bool" where
  "is_digit c = (c \<in> set ''0123456789'')"

definition is_space :: "char \<Rightarrow> bool" where
  "is_space c = (c \<in> set [CHR 0x09, CHR 0x0A, CHR 0x0B, CHR 0x0C, CHR 0x0D, CHR 0x20, CHR 0xA0])"

definition is_line_term :: "char \<Rightarrow> bool" where
  "is_line_term c = (c = CHR 0x0A \<or> c = CHR 0x0D)"

definition trim :: "string \<Rightarrow> string" where
  "trim s = rev (dropWhile is_space (rev (dropWhile is_space s)))"

text \<open>\<open>s.includes(sub)\<close>: \<open>sub\<close> occurs in \<open>s\<close> as a contiguous substring.\<close>

fun str_includes :: "string \<Rightarrow> string \<Rightarrow> bool" where
  "str_includes [] sub = (sub = [])"
| "str_includes (c # cs) sub = (take (length sub) (c # cs) = sub \<or> str_includes cs sub)"

text \<open>\<open>s.split(sep)\<close> for a separator of one character; the result is never empty.\<close>

fun str_split :: "char \<Rightarrow> string \<Rightarrow> string list" where
  "str_split sep [] = [[]]"
| "str_split sep (c # cs) =
     (if c = sep then [] # str_split sep cs
      else (case str_split sep cs of p # ps \<Rightarrow> (c # p) # ps | [] \<Rightarrow> [[c]]))"

definition digit_val :: "char \<Rightarrow> int" where
  "digit_val c = int (of_char c) - 48"

definition decimal :: "string \<Rightarrow> int" where
  "decimal ds = foldl (\<lambda>a c. 10 * a + digit_val c) 0 ds"

text \<open>
  \<open>parseInt(s)\<close> on the strings the parser passes to it. A JavaScript number that is
  \<open>NaN\<close> is \<open>None\<close>. The parser calls \<open>parseInt\<close> on pieces of a matched header only,
  and these begin with a decimal digit, so that the leading white space, the sign and
  the \<open>0x\<close> prefix that \<open>parseInt\<close> also accepts do not occur: the number is the
  longest prefix of digits, and \<open>NaN\<close> when there is none.
\<close>

definition parseInt :: "string \<Rightarrow> int option" where
  "parseInt s = (let ds = takeWhile is_digit s in if ds = [] then None else Some (decimal ds))"

text \<open>\<open>parseInt(parts[i])\<close>: an index out of range reads \<open>undefined\<close>, which parses to \<open>NaN\<close>.\<close>

definition parseInt_at :: "string list \<Rightarrow> nat \<Rightarrow> int option" where
  "parseInt_at parts i = (if i < length parts then parseInt (parts ! i) else None)"

text \<open>\<open>s.replace(/\s[AP]M/, '')\<close>: the first occurrence of the pattern is removed.\<close>

fun remove_ampm :: "string \<Rightarrow> string" where
  "remove_ampm (a # b # c # cs) =
     (if is_space a \<and> (b = CHR ''A'' \<or> b = CHR ''P'') \<and> c = CHR ''M'' then cs
      else a # remove_ampm (b # c # cs))"
| "remove_ampm cs = cs"

subsection \<open>The \<open>Date\<close> constructor\<close>

text \<open>
  \<open>new Date(year, month, day, hour, minute, second)\<close> after ECMAScript: the day number
  of the first of the month, with the month index carried into the year, plus the
  day of the month; nothing is range-checked. The arguments are local time; \<open>tza\<close> is
  the host's offset of local time from UTC in milliseconds, at a local time value.
  The time value is in milliseconds since the epoch, and \<open>None\<close> is the Invalid Date.
\<close>

definition day_from_year :: "int \<Rightarrow> int" where
  "day_from_year y =
     365 * (y - 1970) + (y - 1969) div 4 - (y - 1901) div 100 + (y - 1601) div 400"

definition is_leap :: "int \<Rightarrow> bool" where
  "is_leap y = ((y mod 4 = 0 \<and> y mod 100 \<noteq> 0) \<or> y mod 400 = 0)"

definition month_start :: "int \<Rightarrow> bool \<Rightarrow> int" where
  "month_start mn leap =
     [0, 31, 59, 90, 120, 151, 181, 212, 243, 273, 304, 334] ! nat mn
       + (if leap \<and> 2 \<le> mn then 1 else 0)"

definition make_day :: "int \<Rightarrow> int \<Rightarrow> int \<Rightarrow> int" where
  "make_day year month dt =
     (let ym = year + month div 12; mn = month mod 12
      in day_from_year ym + month_start mn (is_leap ym) + dt - 1)"

definition make_time :: "int \<Rightarrow> int \<Rightarrow> int \<Rightarrow> int \<Rightarrow> int" where
  "make_time hour minute sec ms = hour * 3600000 + minute * 60000 + sec * 1000 + ms"

definition make_date :: "int \<Rightarrow> int \<Rightarrow> int" where
  "make_date dayn tm = dayn * 86400000 + tm"

definition time_clip :: "int \<Rightarrow> int option" where
  "time_clip tv = (if \<bar>tv\<bar> > 8640000000000000 then None else Some tv)"

definition new_Date ::
  "(int \<Rightarrow> int) \<Rightarrow> int option \<Rightarrow> int option \<Rightarrow> int option \<Rightarrow> int option \<Rightarrow> int option
     \<Rightarrow> int option \<Rightarrow> int option" where
  "new_Date tza year month dayn hour minute sec =
     (case (year, month, dayn, hour, minute, sec) of
        (Some y, Some m, Some d, Some h, Some mi, Some s) \<Rightarrow>
          (let yr = (if 0 \<le> y \<and> y \<le> 99 then 1900 + y else y);
               t = make_date (make_day yr m d) (make_time h mi s 0)
           in time_clip (t - tza t))
      | _ \<Rightarrow> None)"

section \<open>The chat parser (custom-chat-parser.js)\<close>

subsection \<open>The two header patterns\<close>

text \<open>
  \<^verbatim>\<open>customPattern = /^\[(\d{2}\/\d{2}\/\d{2}),\s(\d{1,2}:\d{2}:\d{2}\s[AP]M)\]\s(.+?):\s(.+)$/\<close>
  \<^verbatim>\<open>altPattern    = /^\[(\d{2}\/\d{2}\/\d{2}),\s(\d{1,2}:\d{2}\s[AP]M)\]\s(.+?):\s(.+)$/\<close>

  The matcher below follows the pattern from left to right. Its only choice points
  are the length of the hour field, which the colon after it decides, and the lazy
  sender group.
\<close>

text \<open>Group 1, \<^verbatim>\<open>\d{2}\/\d{2}\/\d{2}\<close>.\<close>

definition date_shape :: "string \<Rightarrow> bool" where
  "date_shape d =
     (case d of
        [d1, d2, s1, m1, m2, s2, y1, y2] \<Rightarrow>
          is_digit d1 \<and> is_digit d2 \<and> s1 = CHR ''/'' \<and> is_digit m1 \<and> is_digit m2 \<and>
          s2 = CHR ''/'' \<and> is_digit y1 \<and> is_digit y2
      | _ \<Rightarrow> False)"

text \<open>
  The part of group 2 after the hour field: \<^verbatim>\<open>:\d{2}:\d{2}\s[AP]M\<close> with seconds,
  \<^verbatim>\<open>:\d{2}\s[AP]M\<close> without.
\<close>

definition time_tail_shape :: "bool \<Rightarrow> string \<Rightarrow> bool" where
  "time_tail_shape secs t =
     (if secs then
        (case t of
           [c1, m1, m2, c2, s1, s2, sp, ap, em] \<Rightarrow>
             c1 = CHR '':'' \<and> is_digit m1 \<and> is_digit m2 \<and> c2 = CHR '':'' \<and> is_digit s1 \<and>
             is_digit s2 \<and> is_space sp \<and> (ap = CHR ''A'' \<or> ap = CHR ''P'') \<and> em = CHR ''M''
         | _ \<Rightarrow> False)
      else
        (case t of
           [c1, m1, m2, sp, ap, em] \<Rightarrow>
             c1 = CHR '':'' \<and> is_digit m1 \<and> is_digit m2 \<and> is_space sp \<and>
             (ap = CHR ''A'' \<or> ap = CHR ''P'') \<and> em = CHR ''M''
         | _ \<Rightarrow> False))"

text \<open>
  Group 2. \<^verbatim>\<open>\d{1,2}\<close> is greedy, and a colon must follow it: the hour field has two
  digits when the second character is a digit, and one otherwise.
\<close>

definition match_time :: "bool \<Rightarrow> string \<Rightarrow> (string \<times> string) option" where
  "match_time secs s =
     (let hl = (if 2 \<le> length s \<and> is_digit (s ! 1) then 2 else 1);
          n = hl + (if secs then 9 else 6)
      in if length s \<ge> n \<and> list_all is_digit (take hl s) \<and> time_tail_shape secs (take (n - hl) (drop hl s))
         then Some (take n s, drop n s) else None)"

text \<open>
  \<^verbatim>\<open>(.+?):\s(.+)$\<close>. The sender group is lazy: it is the shortest non-empty run of
  characters other than line terminators after which a colon, a white space character and a
  non-empty rest free of line terminators up to the end of the line follow. \<open>acc\<close> is the
  sender read so far, reversed.
\<close>

fun split_sender :: "string \<Rightarrow> string \<Rightarrow> (string \<times> string) option" where
  "split_sender acc [] = None"
| "split_sender acc (c # cs) =
     (if acc \<noteq> [] \<and> c = CHR '':'' \<and>
         (case cs of [] \<Rightarrow> False
          | sp # rest \<Rightarrow> is_space sp \<and> rest \<noteq> [] \<and> \<not> list_ex is_line_term rest)
      then Some (rev acc, tl cs)
      else if is_line_term c then None
      else split_sender (c # acc) cs)"

definition match_pattern :: "bool \<Rightarrow> string \<Rightarrow> (string \<times> string \<times> string \<times> string) option" where
  "match_pattern secs line =
     (case line of
        [] \<Rightarrow> None
      | br # r0 \<Rightarrow>
          if br \<noteq> CHR ''['' \<or> \<not> date_shape (take 8 r0) then None
          else
            (case drop 8 r0 of
               comma # sp # r1 \<Rightarrow>
                 if comma \<noteq> CHR '','' \<or> \<not> is_space sp then None
                 else
                   (case match_time secs r1 of
                      None \<Rightarrow> None
                    | Some (tm, r2) \<Rightarrow>
                        (case r2 of
                           cl # sp2 # r3 \<Rightarrow>
                             if cl \<noteq> CHR '']'' \<or> \<not> is_space sp2 then None
                             else
                               (case split_sender [] r3 of
                                  None \<Rightarrow> None
                                | Some (sndr, cont) \<Rightarrow> Some (take 8 r0, tm, sndr, cont))
                         | _ \<Rightarrow> None))
             | _ \<Rightarrow> None))"

definition customPattern :: "string \<Rightarrow> (string \<times> string \<times> string \<times> string) option" where
  "customPattern = match_pattern True"

definition altPattern :: "string \<Rightarrow> (string \<times> string \<times> string \<times> string) option" where
  "altPattern = match_pattern False"

text \<open>
  \<^verbatim>\<open>let match = line.match(customPattern); if (!match) { match = line.match(altPattern); }\<close>
\<close>

definition match_line :: "string \<Rightarrow> (string \<times> string \<times> string \<times> string) option" where
  "match_line line =
     (case customPattern line of Some m \<Rightarrow> Some m | None \<Rightarrow> altPattern line)"

subsection \<open>Messages\<close>

record message =
  timestamp :: "int option"
  date :: string
  time :: string
  sender :: string
  content :: string
  isMedia :: bool
  isDeleted :: bool
  lineNumber :: nat

text \<open>Lines 53 to 61: the date fields, in day-month-year order.\<close>

definition parse_date :: "string \<Rightarrow> int option \<times> int option \<times> int option" where
  "parse_date d =
     (let dateParts = str_split (CHR ''/'') d;
          dayn = parseInt_at dateParts 0;
          month = map_option (\<lambda>m. m - 1) (parseInt_at dateParts 1);
          year = parseInt_at dateParts 2;
          year = (case year of Some y \<Rightarrow> if y < 100 then Some (y + 2000) else Some y | None \<Rightarrow> None)
      in (year, month, dayn))"

text \<open>Lines 63 to 85: the time fields, from the 12-hour clock to the 24-hour clock.\<close>

definition parse_time :: "string \<Rightarrow> int option \<times> int option \<times> int option" where
  "parse_time t =
     (let isPM = str_includes t ''PM'';
          timeParts = str_split (CHR '':'') t;
          hour = parseInt_at timeParts 0;
          hour = (case hour of
                    Some h \<Rightarrow>
                      if isPM \<and> h < 12 then Some (h + 12)
                      else if \<not> isPM \<and> h = 12 then Some 0
                      else Some h
                  | None \<Rightarrow> None);
          minute = parseInt_at timeParts 1;
          sec = (if length timeParts > 2 then parseInt (remove_ampm (timeParts ! 2)) else Some 0)
      in (hour, minute, sec))"

definition has_media_marker :: "string \<Rightarrow> bool" where
  "has_media_marker c =
     (str_includes c ''image omitted'' \<or> str_includes c ''video omitted'' \<or> str_includes c ''audio omitted'' \<or>
      str_includes c ''sticker omitted'' \<or> str_includes c ''GIF omitted'' \<or> str_includes c ''document omitted'')"

definition has_deleted_marker :: "string \<Rightarrow> bool" where
  "has_deleted_marker c =
     (str_includes c ''This message was deleted'' \<or> str_includes c ''You deleted this message'')"

text \<open>Lines 51 to 106: the message a matched header opens.\<close>

definition new_message ::
  "(int \<Rightarrow> int) \<Rightarrow> string \<times> string \<times> string \<times> string \<Rightarrow> nat \<Rightarrow> message" where
  "new_message tza m lineIndex =
     (case m of (d, t, sndr, cont) \<Rightarrow>
        (case parse_date d of (year, month, dayn) \<Rightarrow>
           (case parse_time t of (hour, minute, sec) \<Rightarrow>
              \<lparr> timestamp = new_Date tza year month dayn hour minute sec,
                date = d,
                time = t,
                sender = trim sndr,
                content = cont,
                isMedia = has_media_marker cont,
                isDeleted = has_deleted_marker cont,
                lineNumber = lineIndex + 1 \<rparr>)))"

subsection \<open>The line loop\<close>

text \<open>
  The state of the loop: the messages pushed so far, the message being built, and
  the line numbers of the warnings written to the console.
\<close>

record parser_state =
  messages :: "message list"
  currentMessage :: "message option"
  warnings :: "nat list"

definition process_line :: "(int \<Rightarrow> int) \<Rightarrow> parser_state \<Rightarrow> string \<Rightarrow> nat \<Rightarrow> parser_state" where
  "process_line tza st line lineIndex =
     (if trim line = [] then st
      else
        (case match_line line of
           Some m \<Rightarrow>
             st\<lparr> messages := (case currentMessage st of
                                Some cur \<Rightarrow> messages st @ [cur]
                              | None \<Rightarrow> messages st),
                 currentMessage := Some (new_message tza m lineIndex) \<rparr>
         | None \<Rightarrow>
             (case currentMessage st of
                Some cur \<Rightarrow>
                  st\<lparr> currentMessage := Some (cur\<lparr> content := content cur @ [NL] @ line \<rparr>) \<rparr>
              | None \<Rightarrow> st\<lparr> warnings := warnings st @ [lineIndex + 1] \<rparr>)))"

text \<open>\<^verbatim>\<open>lines.forEach((line, lineIndex) => ...)\<close>, from index \<open>i\<close> on.\<close>

fun forEach_line :: "(int \<Rightarrow> int) \<Rightarrow> nat \<Rightarrow> string list \<Rightarrow> parser_state \<Rightarrow> parser_state" where
  "forEach_line tza i [] st = st"
| "forEach_line tza i (line # rest) st = forEach_line tza (Suc i) rest (process_line tza st line i)"

definition finish :: "parser_state \<Rightarrow> message list" where
  "finish st = (case currentMessage st of Some cur \<Rightarrow> messages st @ [cur] | None \<Rightarrow> messages st)"

definition parse_lines :: "(int \<Rightarrow> int) \<Rightarrow> string list \<Rightarrow> message list" where
  "parse_lines tza lines =
     finish (forEach_line tza 0 lines \<lparr> messages = [], currentMessage = None, warnings = [] \<rparr>)"

text \<open>\<open>parseCustomChat\<close>, from the text of the file on.\<close>

definition parseCustomChat :: "(int \<Rightarrow> int) \<Rightarrow> string \<Rightarrow> message list" where
  "parseCustomChat tza chatText = parse_lines tza (str_split NL chatText)"


text \<open>The state in which the loop starts.\<close>

definition init_state :: parser_state where
  "init_state = \<lparr> messages = [], currentMessage = None, warnings = [] \<rparr>"

subsection \<open>Notions used to state the parser's properties\<close>

text \<open>
  The number written in the hour field of a time text (the digits before the first
  colon), and its designator (the last two characters).
\<close>

definition clock_hour :: "string \<Rightarrow> int" where
  "clock_hour t = decimal (takeWhile is_digit t)"

definition is_PM :: "string \<Rightarrow> bool" where
  "is_PM t = (drop (length t - 2) t = ''PM'')"

definition is_AM :: "string \<Rightarrow> bool" where
  "is_AM t = (drop (length t - 2) t = ''AM'')"

text \<open>The branches of lines 73 to 77 as a function of the designator and the hour field.\<close>

definition to24 :: "bool \<Rightarrow> int \<Rightarrow> int" where
  "to24 pm h = (if pm \<and> h < 12 then h + 12 else if \<not> pm \<and> h = 12 then 0 else h)"

text \<open>What a run of non-header lines appends to the content of the open message.\<close>

definition folded :: "string list \<Rightarrow> string" where
  "folded cs = concat (map (\<lambda>l. NL # l) (filter (\<lambda>l. trim l \<noteq> []) cs))"

text \<open>A host whose local time is UTC.\<close>

definition utc_host :: "int \<Rightarrow> int" where
  "utc_host t = 0"

section \<open>The analyzer (data-analyzer.js)\<close>

subsection \<open>JavaScript numbers, objects and dates\<close>

text \<open>
  A JavaScript number is a rational, an infinity or \<open>NaN\<close>: division by zero does not
  raise. Rounding to double precision is not modelled; the arithmetic on finite values
  is exact. The zeros that occur as divisors are counts and quotients of counts, which
  are never the negative zero.
\<close>

datatype jsnum = Fin rat | PosInf | NegInf | NaN

fun js_sub :: "jsnum \<Rightarrow> jsnum \<Rightarrow> jsnum" where
  "js_sub (Fin a) (Fin b) = Fin (a - b)"
| "js_sub NaN _ = NaN"
| "js_sub _ NaN = NaN"
| "js_sub PosInf PosInf = NaN"
| "js_sub NegInf NegInf = NaN"
| "js_sub PosInf _ = PosInf"
| "js_sub NegInf _ = NegInf"
| "js_sub (Fin a) PosInf = NegInf"
| "js_sub (Fin a) NegInf = PosInf"

fun js_div :: "jsnum \<Rightarrow> jsnum \<Rightarrow> jsnum" where
  "js_div (Fin a) (Fin b) =
     (if b \<noteq> 0 then Fin (a / b)
      else if 0 < a then PosInf else if a < 0 then NegInf else NaN)"
| "js_div NaN _ = NaN"
| "js_div _ NaN = NaN"
| "js_div (Fin a) _ = Fin 0"
| "js_div PosInf (Fin b) = (if b < 0 then NegInf else PosInf)"
| "js_div NegInf (Fin b) = (if b < 0 then PosInf else NegInf)"
| "js_div _ _ = NaN"

fun js_abs :: "jsnum \<Rightarrow> jsnum" where
  "js_abs (Fin a) = Fin \<bar>a\<bar>"
| "js_abs PosInf = PosInf"
| "js_abs NegInf = PosInf"
| "js_abs NaN = NaN"

text \<open>\<open>x > r\<close> for a finite \<open>r\<close>: false when \<open>x\<close> is \<open>NaN\<close>.\<close>

fun js_gt :: "jsnum \<Rightarrow> rat \<Rightarrow> bool" where
  "js_gt (Fin a) r = (r < a)"
| "js_gt PosInf r = True"
| "js_gt NegInf r = False"
| "js_gt NaN r = False"

datatype error = TypeError | RangeError

text \<open>
  An object used as a dictionary: its own properties in the order of their creation.
  \<open>obj[k]\<close> on a missing key is \<open>undefined\<close>, here \<open>None\<close>; \<open>obj[k] || d\<close> is
  \<open>obj_get_or obj k d\<close> for the values stored here (a stored zero and the default zero
  agree, and a stored array is truthy).
\<close>

type_synonym 'v js_object = "(string \<times> 'v) list"

definition obj_get :: "'v js_object \<Rightarrow> string \<Rightarrow> 'v option" where
  "obj_get obj k = map_of obj k"

definition obj_get_or :: "'v js_object \<Rightarrow> string \<Rightarrow> 'v \<Rightarrow> 'v" where
  "obj_get_or obj k d = (case obj_get obj k of Some v \<Rightarrow> v | None \<Rightarrow> d)"

fun obj_set :: "'v js_object \<Rightarrow> string \<Rightarrow> 'v \<Rightarrow> 'v js_object" where
  "obj_set [] k v = [(k, v)]"
| "obj_set ((k', v') # rest) k v =
     (if k' = k then (k, v) # rest else (k', v') # obj_set rest k v)"

text \<open>
  \<open>Object.keys\<close>, \<open>Object.values\<close> and \<open>Object.entries\<close> list the keys that are array
  indices (canonical decimal numerals below \<open>2^32 - 1\<close>) first, in ascending order, and
  then the other keys in the order of their creation.
\<close>

definition is_array_index :: "string \<Rightarrow> bool" where
  "is_array_index k =
     (k \<noteq> [] \<and> list_all is_digit k \<and> (k = ''0'' \<or> hd k \<noteq> CHR ''0'') \<and> decimal k < 4294967295)"

definition object_entries :: "'v js_object \<Rightarrow> (string \<times> 'v) list" where
  "object_entries obj =
     sort_key (\<lambda>e. decimal (fst e)) (filter (\<lambda>e. is_array_index (fst e)) obj)
       @ filter (\<lambda>e. \<not> is_array_index (fst e)) obj"

definition object_keys :: "'v js_object \<Rightarrow> string list" where
  "object_keys obj = map fst (object_entries obj)"

definition object_values :: "'v js_object \<Rightarrow> 'v list" where
  "object_values obj = map snd (object_entries obj)"

text \<open>
  \<open>Date.prototype.toISOString\<close> of a valid time value: the UTC calendar date of the
  day number, then the time of day. The year has four digits from 0 to 9999, and a
  sign and six digits otherwise.
\<close>

definition civil_from_days :: "int \<Rightarrow> int \<times> int \<times> int" where
  "civil_from_days z0 =
     (let z = z0 + 719468;
          era = z div 146097;
          doe = z mod 146097;
          yoe = (doe - doe div 1460 + doe div 36524 - doe div 146096) div 365;
          doy = doe - (365 * yoe + yoe div 4 - yoe div 100);
          mp = (5 * doy + 2) div 153;
          d = doy - (153 * mp + 2) div 5 + 1;
          m = (if mp < 10 then mp + 3 else mp - 9);
          y = yoe + era * 400 + (if m \<le> 2 then 1 else 0)
      in (y, m, d))"

definition digit_char :: "int \<Rightarrow> char" where
  "digit_char d = ''0123456789'' ! nat d"

text \<open>The last \<open>n\<close> decimal digits of \<open>v\<close>, with leading zeros.\<close>

fun pad :: "nat \<Rightarrow> int \<Rightarrow> string" where
  "pad 0 v = []"
| "pad (Suc n) v = pad n (v div 10) @ [digit_char (v mod 10)]"

definition toISOString :: "int \<Rightarrow> string" where
  "toISOString t =
     (let tod = t mod 86400000 in
      case civil_from_days (t div 86400000) of (y, m, d) \<Rightarrow>
        (if 0 \<le> y \<and> y \<le> 9999 then pad 4 y
         else (if y < 0 then ''-'' else ''+'') @ pad 6 \<bar>y\<bar>)
        @ ''-'' @ pad 2 m @ ''-'' @ pad 2 d
        @ ''T'' @ pad 2 (tod div 3600000) @ '':'' @ pad 2 (tod div 60000 mod 60)
        @ '':'' @ pad 2 (tod div 1000 mod 60) @ ''.'' @ pad 3 (tod mod 1000) @ ''Z'')"

text \<open>
  \<open>getHours\<close> is the hour of the local time; \<open>tzu\<close> is the host's offset of local time
  from UTC in milliseconds, at a UTC time value.
\<close>

definition getHours :: "(int \<Rightarrow> int) \<Rightarrow> int \<Rightarrow> nat" where
  "getHours tzu t = nat ((t + tzu t) div 3600000 mod 24)"

text \<open>
  \<open>new Date(message.timestamp)\<close> of a message whose timestamp is valid. Every analysis
  calls \<open>toISOString\<close> on the date of each message it is given before it returns, and
  \<open>toISOString\<close> raises a \<open>RangeError\<close> on the Invalid Date: the functions below start
  with that check, and the loops after it read valid timestamps only.
\<close>

definition time_value :: "message \<Rightarrow> int" where
  "time_value m = (case timestamp m of Some t \<Rightarrow> t | None \<Rightarrow> 0)"

definition invalid_date :: "message \<Rightarrow> bool" where
  "invalid_date m = (timestamp m = None)"

definition iso_day :: "message \<Rightarrow> string" where
  "iso_day m = take 10 (toISOString (time_value m))"

definition iso_month :: "message \<Rightarrow> string" where
  "iso_month m = take 7 (toISOString (time_value m))"

subsection \<open>\<open>analyzeTemporalPatterns\<close>\<close>

record temporal_acc =
  byDay :: "nat js_object"
  byHour :: "nat list"
  byMonth :: "nat js_object"
  responseTimes :: "rat list js_object"

text \<open>
  The body of the loop at lines 20 to 57. \<open>prev\<close> is the sender and the time value of
  \<open>messages[index - 1]\<close>, and \<open>None\<close> at index 0.
\<close>

definition temporal_step ::
  "(int \<Rightarrow> int) \<Rightarrow> (string \<times> int) option \<Rightarrow> message \<Rightarrow> temporal_acc \<Rightarrow> temporal_acc" where
  "temporal_step tzu prev m st =
     (let dayk = iso_day m; month = iso_month m; hour = getHours tzu (time_value m) in
      st\<lparr> byDay := obj_set (byDay st) dayk (obj_get_or (byDay st) dayk 0 + 1),
          byHour := (byHour st)[hour := byHour st ! hour + 1],
          byMonth := obj_set (byMonth st) month (obj_get_or (byMonth st) month 0 + 1),
          responseTimes :=
            (case prev of
               None \<Rightarrow> responseTimes st
             | Some (prevSender, prevTimestamp) \<Rightarrow>
                 if sender m \<noteq> prevSender then
                   (let responseTime = of_int (time_value m - prevTimestamp) / 1000 / 60 in
                    if responseTime < 24 * 60
                    then obj_set (responseTimes st) (sender m)
                           (obj_get_or (responseTimes st) (sender m) [] @ [responseTime])
                    else responseTimes st)
                 else responseTimes st) \<rparr>)"

fun temporal_forEach ::
  "(int \<Rightarrow> int) \<Rightarrow> (string \<times> int) option \<Rightarrow> message list \<Rightarrow> temporal_acc \<Rightarrow> temporal_acc" where
  "temporal_forEach tzu prev [] st = st"
| "temporal_forEach tzu prev (m # ms) st =
     temporal_forEach tzu (Some (sender m, time_value m)) ms (temporal_step tzu prev m st)"

record temporal_analysis =
  messagesByDay :: "nat js_object"
  messagesByHour :: "nat list"
  messagesByMonth :: "nat js_object"
  responseTimesBySender :: "rat list js_object"
  avgResponseTimes :: "jsnum js_object"

text \<open>\<^verbatim>\<open>times.reduce((sum, time) => sum + time, 0) / times.length\<close>\<close>

definition average :: "rat list \<Rightarrow> jsnum" where
  "average xs = js_div (Fin (sum_list xs)) (Fin (of_nat (length xs)))"

definition analyzeTemporalPatterns :: "(int \<Rightarrow> int) \<Rightarrow> message list \<Rightarrow> error + temporal_analysis" where
  "analyzeTemporalPatterns tzu msgs =
     (if list_ex invalid_date msgs then Inl RangeError
      else
        (let st = temporal_forEach tzu None msgs
                    \<lparr> byDay = [], byHour = replicate 24 0, byMonth = [], responseTimes = [] \<rparr>
         in Inr \<lparr> messagesByDay = byDay st,
                  messagesByHour = byHour st,
                  messagesByMonth = byMonth st,
                  responseTimesBySender = responseTimes st,
                  avgResponseTimes =
                    map (\<lambda>e. (fst e, average (snd e))) (object_entries (responseTimes st)) \<rparr>))"

subsection \<open>\<open>analyzeContentPatterns\<close> and \<open>analyzeSentiment\<close>\<close>

text \<open>
  Of \<open>analyzeContentPatterns\<close> the message lengths and the media counts are modelled.
  The word and emoji frequencies and the monthly topics are computed by the tokenizer
  and the term weighting of the external library \<open>natural\<close>, and are left out; no
  other result depends on them.
\<close>

record content_acc =
  lengthsBySender :: "nat list js_object"
  mediaCounts :: "nat js_object"

definition content_step :: "message \<Rightarrow> content_acc \<Rightarrow> content_acc" where
  "content_step m st =
     st\<lparr> lengthsBySender :=
            obj_set (lengthsBySender st) (sender m)
              (obj_get_or (lengthsBySender st) (sender m) [] @ [length (content m)]),
          mediaCounts :=
            obj_set (mediaCounts st) (sender m)
              (obj_get_or (mediaCounts st) (sender m) 0 + (if isMedia m then 1 else 0)) \<rparr>"

record content_analysis =
  avgLengthBySender :: "jsnum js_object"
  mediaBySender :: "nat js_object"

definition content_patterns :: "message list \<Rightarrow> content_analysis" where
  "content_patterns msgs =
     (let st = foldl (\<lambda>st m. content_step m st) \<lparr> lengthsBySender = [], mediaCounts = [] \<rparr> msgs
      in \<lparr> avgLengthBySender =
             map (\<lambda>e. (fst e, average (map of_nat (snd e)))) (object_entries (lengthsBySender st)),
           mediaBySender = mediaCounts st \<rparr>)"

text \<open>The second loop, lines 143 to 151, takes the month of every message that is not media.\<close>

definition analyzeContentPatterns :: "message list \<Rightarrow> error + content_analysis" where
  "analyzeContentPatterns msgs =
     (if list_ex (\<lambda>m. \<not> isMedia m \<and> invalid_date m) msgs then Inl RangeError
      else Inr (content_patterns msgs))"

text \<open>
  The sentiment scorer is an external library: \<open>an\<close> maps a content to its \<open>score\<close> and
  its \<open>comparative\<close> score.
\<close>

record sentiment_entry =
  entry_timestamp :: string
  entry_sender :: string
  score :: rat
  comparative :: rat

record sentiment_acc =
  sentimentByMonth :: "rat list js_object"
  sentimentBySender :: "rat list js_object"
  timeline :: "sentiment_entry list"

definition sentiment_step :: "(string \<Rightarrow> rat \<times> rat) \<Rightarrow> message \<Rightarrow> sentiment_acc \<Rightarrow> sentiment_acc" where
  "sentiment_step an m st =
     (let month = iso_month m in
      if \<not> isMedia m \<and> \<not> isDeleted m then
        (let result = an (content m) in
         st\<lparr> sentimentByMonth :=
                obj_set (sentimentByMonth st) month
                  (obj_get_or (sentimentByMonth st) month [] @ [fst result]),
              sentimentBySender :=
                obj_set (sentimentBySender st) (sender m)
                  (obj_get_or (sentimentBySender st) (sender m) [] @ [fst result]),
              timeline :=
                timeline st @
                  [\<lparr> entry_timestamp = toISOString (time_value m), entry_sender = sender m,
                     score = fst result, comparative = snd result \<rparr>] \<rparr>)
      else st)"

record sentiment_analysis =
  sentimentTimeline :: "sentiment_entry list"
  avgSentimentByMonth :: "jsnum js_object"
  avgSentimentBySender :: "jsnum js_object"

definition sentiment_patterns :: "(string \<Rightarrow> rat \<times> rat) \<Rightarrow> message list \<Rightarrow> sentiment_analysis" where
  "sentiment_patterns an msgs =
     (let st = foldl (\<lambda>st m. sentiment_step an m st)
                 \<lparr> sentimentByMonth = [], sentimentBySender = [], timeline = [] \<rparr> msgs
      in \<lparr> sentimentTimeline = timeline st,
           avgSentimentByMonth =
             map (\<lambda>e. (fst e, average (snd e))) (object_entries (sentimentByMonth st)),
           avgSentimentBySender =
             map (\<lambda>e. (fst e, average (snd e))) (object_entries (sentimentBySender st)) \<rparr>)"

definition analyzeSentiment ::
  "(string \<Rightarrow> rat \<times> rat) \<Rightarrow> message list \<Rightarrow> error + sentiment_analysis" where
  "analyzeSentiment an msgs =
     (if list_ex invalid_date msgs then Inl RangeError else Inr (sentiment_patterns an msgs))"

subsection \<open>\<open>analyzeRelationshipPatterns\<close>\<close>

definition WINDOW_SIZE :: nat where
  "WINDOW_SIZE = 30"

text \<open>\<^verbatim>\<open>Math.ceil(WINDOW_SIZE / 2)\<close>\<close>

definition window_step :: nat where
  "window_step = nat \<lceil>(of_nat WINDOW_SIZE :: rat) / 2\<rceil>"

text \<open>Lines 249 to 256: the messages of each day, in the order of the messages.\<close>

fun group_by_day :: "message list \<Rightarrow> message list js_object \<Rightarrow> message list js_object" where
  "group_by_day [] byd = byd"
| "group_by_day (m # ms) byd =
     group_by_day ms (obj_set byd (iso_day m) (obj_get_or byd (iso_day m) [] @ [m]))"

text \<open>
  \<^verbatim>\<open>Object.keys(messagesByDay).sort()\<close>: the default sort compares strings by their code
  units, which is the lexicographic order of lists of characters.
\<close>

definition sortedDays :: "message list \<Rightarrow> string list" where
  "sortedDays msgs = sort (object_keys (group_by_day msgs []))"

text \<open>\<open>xs[i]\<close> of an array: \<open>undefined\<close>, here \<open>None\<close>, out of range.\<close>

definition js_index :: "'a list \<Rightarrow> int \<Rightarrow> 'a option" where
  "js_index xs i = (if 0 \<le> i \<and> i < int (length xs) then Some (xs ! nat i) else None)"

text \<open>Lines 285 to 290: the adjacent pairs of the window whose senders differ.\<close>

fun count_responses :: "message list \<Rightarrow> nat" where
  "count_responses (a # b # rest) =
     (if sender b \<noteq> sender a then 1 else 0) + count_responses (b # rest)"
| "count_responses _ = 0"

record window_metrics =
  startDate :: "string option"
  endDate :: "string option"
  messageCount :: nat
  messagesBySender :: "nat js_object"
  messagesPerDay :: jsnum
  responseFrequency :: jsnum
  avgMessageLength :: "jsnum list"
  avgSentiment :: "jsnum list"

text \<open>
  \<open>sortedDays.slice(i, i + WINDOW_SIZE)\<close> and the messages of these days. Every key of
  \<open>sortedDays\<close> is a key of \<open>messagesByDay\<close>, so that the lookup finds an array.
\<close>

definition window_days :: "string list \<Rightarrow> nat \<Rightarrow> string list" where
  "window_days days i = take WINDOW_SIZE (drop i days)"

definition window_messages :: "message list js_object \<Rightarrow> string list \<Rightarrow> message list" where
  "window_messages byd windowDays = concat (map (\<lambda>d. obj_get_or byd d []) windowDays)"

text \<open>The body of the loop at lines 264 to 312, for the window that starts at index \<open>i\<close>.\<close>

definition window_at ::
  "(string \<Rightarrow> rat \<times> rat) \<Rightarrow> message list js_object \<Rightarrow> string list \<Rightarrow> nat \<Rightarrow> window_metrics" where
  "window_at an byd days i =
     (let windowDays = window_days days i;
          windowMessages = window_messages byd windowDays;
          bySender = foldl (\<lambda>obj m. obj_set obj (sender m) (obj_get_or obj (sender m) 0 + 1))
                       [] windowMessages;
          responseCount = count_responses windowMessages;
          contentAnalysis = content_patterns windowMessages;
          sentimentAnalysis = sentiment_patterns an windowMessages
      in \<lparr> startDate = js_index windowDays 0,
           endDate = js_index windowDays (int (length windowDays) - 1),
           messageCount = length windowMessages,
           messagesBySender = bySender,
           messagesPerDay =
             js_div (Fin (of_nat (length windowMessages))) (Fin (of_nat (length windowDays))),
           responseFrequency =
             js_div (Fin (of_nat responseCount)) (Fin (of_nat (length windowMessages))),
           avgMessageLength = object_values (avgLengthBySender contentAnalysis),
           avgSentiment = object_values (avgSentimentBySender sentimentAnalysis) \<rparr>)"

text \<open>
  \<^verbatim>\<open>for (let i = 0; i < sortedDays.length - WINDOW_SIZE; i += Math.ceil(WINDOW_SIZE / 2))\<close>,
  from index \<open>i\<close> on. The difference is a JavaScript number and may be negative.
\<close>

function window_loop ::
  "(string \<Rightarrow> rat \<times> rat) \<Rightarrow> message list js_object \<Rightarrow> string list \<Rightarrow> nat \<Rightarrow> window_metrics list" where
  "window_loop an byd days i =
     (if int i < int (length days) - int WINDOW_SIZE
      then window_at an byd days i # window_loop an byd days (i + window_step)
      else [])"
  by pat_completeness auto
termination
  by (relation "measure (\<lambda>(an, byd, days, i). length days - i)")
    (auto simp: window_step_def WINDOW_SIZE_def)

declare window_loop.simps [simp del]

text \<open>Lines 322 and 325: the relative changes from the previous window to the current one.\<close>

definition frequency_change :: "window_metrics \<Rightarrow> window_metrics \<Rightarrow> jsnum" where
  "frequency_change prevW currW =
     js_div (js_sub (messagesPerDay currW) (messagesPerDay prevW)) (messagesPerDay prevW)"

definition response_change :: "window_metrics \<Rightarrow> window_metrics \<Rightarrow> jsnum" where
  "response_change prevW currW =
     js_div (js_sub (responseFrequency currW) (responseFrequency prevW)) (responseFrequency prevW)"

record pattern_shift =
  shift_date :: "string option"
  frequencyChange :: jsnum
  responseChange :: jsnum
  prevWindow :: window_metrics
  currWindow :: window_metrics

text \<open>Lines 317 to 339: the loop over the adjacent pairs of windows.\<close>

fun detect_shifts :: "window_metrics list \<Rightarrow> pattern_shift list" where
  "detect_shifts (prevW # currW # rest) =
     (if js_gt (js_abs (frequency_change prevW currW)) (3 / 10) \<or>
         js_gt (js_abs (response_change prevW currW)) (3 / 10)
      then [\<lparr> shift_date = startDate currW,
              frequencyChange = frequency_change prevW currW,
              responseChange = response_change prevW currW,
              prevWindow = prevW,
              currWindow = currW \<rparr>]
      else [])
     @ detect_shifts (currW # rest)"
| "detect_shifts _ = []"

record relationship_analysis =
  windowMetrics :: "window_metrics list"
  patternShifts :: "pattern_shift list"

definition analyzeRelationshipPatterns ::
  "(string \<Rightarrow> rat \<times> rat) \<Rightarrow> message list \<Rightarrow> error + relationship_analysis" where
  "analyzeRelationshipPatterns an msgs =
     (if list_ex invalid_date msgs then Inl RangeError
      else
        (let byd = group_by_day msgs [];
             days = sort (object_keys byd);
             wms = window_loop an byd days 0
         in Inr \<lparr> windowMetrics = wms, patternShifts = detect_shifts wms \<rparr>))"

subsection \<open>\<open>analyzeWhatsAppChat\<close>, \<open>processAnalysis\<close> and \<open>runPipeline\<close>\<close>

record basic_stats =
  stats_messageCount :: nat
  uniqueSenders :: "string list"
  firstMessageDate :: string
  lastMessageDate :: string
  durationDays :: jsnum

record report =
  basicStats :: basic_stats
  temporalAnalysis :: temporal_analysis
  contentAnalysis :: content_analysis
  sentimentAnalysis :: sentiment_analysis
  relationshipAnalysis :: relationship_analysis

text \<open>\<^verbatim>\<open>[...new Set(xs)]\<close>: the distinct elements in the order of their first occurrence.\<close>

definition unique :: "'a list \<Rightarrow> 'a list" where
  "unique xs = rev (remdups (rev xs))"

text \<open>
  On the empty array \<open>messages[0]\<close> and \<open>messages[messages.length - 1]\<close> are \<open>undefined\<close>,
  and reading \<open>lastMessage.timestamp\<close> at line 359 raises a \<open>TypeError\<close>. The
  subtraction of two dates does not raise; the first call that does, on an invalid
  timestamp, is \<open>analyzeTemporalPatterns\<close>.
\<close>

definition analyzeWhatsAppChat ::
  "(int \<Rightarrow> int) \<Rightarrow> (string \<Rightarrow> rat \<times> rat) \<Rightarrow> message list \<Rightarrow> error + report" where
  "analyzeWhatsAppChat tzu an msgs =
     (case msgs of
        [] \<Rightarrow> Inl TypeError
      | firstMessage # _ \<Rightarrow>
          (let lastMessage = last msgs in
           case analyzeTemporalPatterns tzu msgs of
             Inl e \<Rightarrow> Inl e
           | Inr temporal \<Rightarrow>
               (case analyzeContentPatterns msgs of
                  Inl e \<Rightarrow> Inl e
                | Inr cont \<Rightarrow>
                    (case analyzeSentiment an msgs of
                       Inl e \<Rightarrow> Inl e
                     | Inr sent \<Rightarrow>
                         (case analyzeRelationshipPatterns an msgs of
                            Inl e \<Rightarrow> Inl e
                          | Inr rel \<Rightarrow>
                              Inr \<lparr> basicStats =
                                      \<lparr> stats_messageCount = length msgs,
                                        uniqueSenders = unique (map sender msgs),
                                        firstMessageDate = date firstMessage,
                                        lastMessageDate = date lastMessage,
                                        durationDays =
                                          js_div (Fin (of_int (time_value lastMessage
                                                                - time_value firstMessage)))
                                                 (Fin 86400000) \<rparr>,
                                    temporalAnalysis = temporal,
                                    contentAnalysis = cont,
                                    sentimentAnalysis = sent,
                                    relationshipAnalysis = rel \<rparr>)))))"

text \<open>
  \<open>processAnalysis\<close> on the messages it has read: an exception of the analysis is caught
  and \<open>null\<close>, here \<open>None\<close>, is returned. The files it reads and writes are not modelled.
\<close>

definition processAnalysis ::
  "(int \<Rightarrow> int) \<Rightarrow> (string \<Rightarrow> rat \<times> rat) \<Rightarrow> message list \<Rightarrow> report option" where
  "processAnalysis tzu an msgs =
     (case analyzeWhatsAppChat tzu an msgs of Inl e \<Rightarrow> None | Inr analysis \<Rightarrow> Some analysis)"

text \<open>
  \<open>runPipeline\<close> up to its second step: \<open>parsed\<close> is what \<open>processChat\<close> returned, \<open>None\<close>
  for \<open>null\<close>; the result is the analysis, and \<open>None\<close> when the pipeline is aborted.
\<close>

definition runPipeline ::
  "(int \<Rightarrow> int) \<Rightarrow> (string \<Rightarrow> rat \<times> rat) \<Rightarrow> message list option \<Rightarrow> report option" where
  "runPipeline tzu an parsed =
     (case parsed of
        None \<Rightarrow> None
      | Some msgs \<Rightarrow> if length msgs = 0 then None else processAnalysis tzu an msgs)"

subsection \<open>Notions used to state the properties of the temporal analysis\<close>




text \<open>The sender and time value that the loop keeps of a message; an object without an empty array.\<close>

definition pt :: "message \<Rightarrow> string \<times> int" where
  "pt m = (sender m, time_value m)"


subsection \<open>Example inputs\<close>



definition neutral_scorer :: "string \<Rightarrow> rat \<times> rat" where
  "neutral_scorer c = (0, 0)"


section \<open>Properties of the parser\<close>

subsection \<open>Characters, splitting and the header patterns\<close>

lemma is_digit_simps:
  "is_digit c \<Longrightarrow> c \<noteq> CHR '':''" "is_digit c \<Longrightarrow> c \<noteq> CHR ''/''" "is_digit c \<Longrightarrow> c \<noteq> CHR ''P''"
  "is_digit c \<Longrightarrow> c \<noteq> CHR ''M''"
  by (auto simp: is_digit_def is_space_def)

lemma is_space_simps:
  "is_space c \<Longrightarrow> c \<noteq> CHR '':''" "is_space c \<Longrightarrow> c \<noteq> CHR ''P''" "is_space c \<Longrightarrow> c \<noteq> CHR ''M''"
  "is_space c \<Longrightarrow> c \<noteq> CHR ''[''"
  by (auto simp: is_digit_def is_space_def)

lemma space_not_digit: "is_space c \<Longrightarrow> \<not> is_digit c"
  by (auto simp: is_digit_def is_space_def)

lemma digit_not_space: "is_digit c \<Longrightarrow> \<not> is_space c"
  by (auto simp: is_digit_def is_space_def)

lemma trim_empty_iff: "trim s = [] \<longleftrightarrow> list_all is_space s"
proof
  assume "trim s = []"
  then have a: "\<forall>x\<in>set (dropWhile is_space s). is_space x"
    by (simp add: trim_def dropWhile_eq_Nil_conv)
  have "dropWhile is_space s = []"
  proof (rule ccontr)
    assume n: "dropWhile is_space s \<noteq> []"
    then have "\<not> is_space (hd (dropWhile is_space s))" by (rule hd_dropWhile)
    with a n show False by (meson hd_in_set)
  qed
  then show "list_all is_space s" by (simp add: dropWhile_eq_Nil_conv list_all_iff)
next
  assume "list_all is_space s"
  then have h: "dropWhile is_space s = []" by (simp add: dropWhile_eq_Nil_conv list_all_iff)
  show "trim s = []" unfolding trim_def h by simp
qed

lemma match_pattern_bracket: "match_pattern secs line = Some m \<Longrightarrow> \<exists>r. line = CHR ''['' # r"
  by (auto simp: match_pattern_def split: list.splits if_splits)

lemma match_line_cases:
  "match_line line = Some m \<Longrightarrow> customPattern line = Some m \<or> (customPattern line = None \<and> altPattern line = Some m)"
  by (auto simp: match_line_def split: option.splits)

lemma match_line_not_blank: "match_line line = Some m \<Longrightarrow> trim line \<noteq> []"
  by (auto simp: trim_empty_iff customPattern_def altPattern_def is_space_def
      dest!: match_line_cases match_pattern_bracket)

lemma match_time_SomeD:
  assumes "match_time secs s = Some (t, r)"
  shows "\<exists>hs tl. t = hs @ tl \<and> s = t @ r \<and> (length hs = 1 \<or> length hs = 2) \<and> list_all is_digit hs
           \<and> time_tail_shape secs tl"
proof -
  define hl :: nat where "hl = (if 2 \<le> length s \<and> is_digit (s ! 1) then 2 else 1)"
  define n where "n = hl + (if secs then 9 else 6)"
  from assms have *: "length s \<ge> n" "list_all is_digit (take hl s)"
     "time_tail_shape secs (take (n - hl) (drop hl s))" "t = take n s" "r = drop n s"
    by (auto simp: match_time_def Let_def hl_def n_def split: if_splits)
  have "hl \<le> n" by (simp add: n_def)
  have "take n s = take hl s @ take (n - hl) (drop hl s)"
    using \<open>hl \<le> n\<close> by (metis le_add_diff_inverse take_add)
  moreover have "length (take hl s) = hl" using * \<open>hl \<le> n\<close> by simp
  moreover have "hl = 1 \<or> hl = 2" by (simp add: hl_def)
  moreover have "s = t @ r" unfolding *(4,5) by simp
  ultimately have "t = take hl s @ take (n - hl) (drop hl s) \<and> s = t @ r \<and>
      (length (take hl s) = 1 \<or> length (take hl s) = 2) \<and> list_all is_digit (take hl s) \<and>
      time_tail_shape secs (take (n - hl) (drop hl s))"
    using *(2,3,4) by metis
  then show ?thesis by blast
qed

lemma time_tail_shape_False:
  "time_tail_shape False ts \<longleftrightarrow>
     (\<exists>m1 m2 sp ap. ts = [CHR '':'', m1, m2, sp, ap, CHR ''M''] \<and> is_digit m1 \<and> is_digit m2 \<and>
        is_space sp \<and> (ap = CHR ''A'' \<or> ap = CHR ''P''))"
  by (auto simp: time_tail_shape_def split: list.splits)

lemma time_tail_shape_True:
  "time_tail_shape True ts \<longleftrightarrow>
     (\<exists>m1 m2 s1 s2 sp ap. ts = [CHR '':'', m1, m2, CHR '':'', s1, s2, sp, ap, CHR ''M''] \<and>
        is_digit m1 \<and> is_digit m2 \<and> is_digit s1 \<and> is_digit s2 \<and>
        is_space sp \<and> (ap = CHR ''A'' \<or> ap = CHR ''P''))"
  by (auto simp: time_tail_shape_def split: list.splits)

lemma digits_cases:
  "(length hs = 1 \<or> length hs = 2) \<Longrightarrow> list_all is_digit hs \<Longrightarrow>
     (\<exists>h1. hs = [h1] \<and> is_digit h1) \<or> (\<exists>h1 h2. hs = [h1, h2] \<and> is_digit h1 \<and> is_digit h2)"
  by (cases hs; cases "tl hs"; cases "tl (tl hs)") auto

lemma ap_simps: "ap = CHR ''A'' \<or> ap = CHR ''P'' \<Longrightarrow> ap \<noteq> CHR '':''"
   "ap = CHR ''A'' \<or> ap = CHR ''P'' \<Longrightarrow> \<not> is_digit ap"
  by (auto simp: is_digit_def)

lemma str_split_nonempty: "str_split sep s \<noteq> []"
  by (induction s) (auto split: list.splits)

lemma str_split_no_sep: "sep \<notin> set s \<Longrightarrow> str_split sep s = [s]"
  by (induction s) auto

lemma str_split_append: "sep \<notin> set s \<Longrightarrow> str_split sep (s @ sep # r) = s # str_split sep r"
  by (induction s) auto

lemma digits_no_colon: "list_all is_digit hs \<Longrightarrow> CHR '':'' \<notin> set hs"
  using is_digit_simps(1) by (auto simp: list_all_iff)

lemma digits_no_slash: "list_all is_digit hs \<Longrightarrow> CHR ''/'' \<notin> set hs"
  using is_digit_simps(2) by (auto simp: list_all_iff)

lemma str_includes_skip: "sub = x # xs \<Longrightarrow> c \<noteq> x \<Longrightarrow> str_includes (c # cs) sub = str_includes cs sub"
  by simp

lemma includes_PM_digits: "list_all is_digit hs \<Longrightarrow> str_includes (hs @ c # cs) ''PM'' = str_includes (c # cs) ''PM''"
proof (induction hs)
  case Nil then show ?case by (simp only: append_Nil)
next
  case (Cons h hs)
  then have "h \<noteq> CHR ''P''" by (simp add: is_digit_simps)
  then have "str_includes (h # (hs @ c # cs)) ''PM'' = str_includes (hs @ c # cs) ''PM''"
    by (intro str_includes_skip[of _ "CHR ''P''" "''M''"]) simp_all
  moreover have "list_all is_digit hs" using Cons.prems by simp
  ultimately show ?case using Cons.IH by (simp only: append_Cons)
qed

lemma includes_PM_tail: "is_space sp \<Longrightarrow> ap = CHR ''A'' \<or> ap = CHR ''P'' \<Longrightarrow>
   str_includes [sp, ap, CHR ''M''] ''PM'' = (ap = CHR ''P'')"
  by (auto simp: is_space_simps)

lemma includes_PM_colon_digits:
  "is_digit m1 \<Longrightarrow> is_digit m2 \<Longrightarrow> str_includes (CHR '':'' # m1 # m2 # c # cs) ''PM'' = str_includes (c # cs) ''PM''"
  by (simp add: is_digit_simps)

lemma parseInt_digits: "ds \<noteq> [] \<Longrightarrow> list_all is_digit ds \<Longrightarrow> parseInt ds = Some (decimal ds)"
  by (simp add: parseInt_def list_all_iff takeWhile_eq_all_conv[THEN iffD2])

lemma parseInt_digits_then: "ds \<noteq> [] \<Longrightarrow> list_all is_digit ds \<Longrightarrow> \<not> is_digit c \<Longrightarrow>
   parseInt (ds @ c # cs) = Some (decimal ds)"
  by (simp add: parseInt_def list_all_iff takeWhile_append2 Let_def)

lemma remove_ampm_secs: "is_digit s1 \<Longrightarrow> is_digit s2 \<Longrightarrow> is_space sp \<Longrightarrow> ap = CHR ''A'' \<or> ap = CHR ''P'' \<Longrightarrow>
   remove_ampm [s1, s2, sp, ap, CHR ''M''] = [s1, s2]"
  by (simp add: digit_not_space)

lemma parse_time_nosecs:
  assumes "(length hs = 1 \<or> length hs = 2)" "list_all is_digit hs" "is_digit m1" "is_digit m2"
    "is_space sp" "ap = CHR ''A'' \<or> ap = CHR ''P''"
  shows "parse_time (hs @ [CHR '':'', m1, m2, sp, ap, CHR ''M'']) =
     (Some (to24 (ap = CHR ''P'') (decimal hs)), Some (decimal [m1, m2]), Some 0)"
proof -
  have ne: "hs \<noteq> []" using assms(1) by auto
  have sp: "str_split (CHR '':'') (hs @ [CHR '':'', m1, m2, sp, ap, CHR ''M'']) = [hs, [m1, m2, sp, ap, CHR ''M'']]"
    using assms by (simp add: str_split_append digits_no_colon str_split_no_sep is_digit_simps is_space_simps ap_simps)
  have pm: "str_includes (hs @ [CHR '':'', m1, m2, sp, ap, CHR ''M'']) ''PM'' = (ap = CHR ''P'')"
    using assms by (auto simp: includes_PM_digits is_digit_simps is_space_simps)
  have h: "parseInt hs = Some (decimal hs)" using ne assms(2) by (rule parseInt_digits)
  have m: "parseInt [m1, m2, sp, ap, CHR ''M''] = Some (decimal [m1, m2])"
    using parseInt_digits_then[of "[m1, m2]" sp "[ap, CHR ''M'']"] assms by (simp add: space_not_digit)
  show ?thesis
    unfolding parse_time_def sp pm
    by (simp add: Let_def parseInt_at_def h m to24_def del: remove_ampm.simps)
qed

lemma parse_time_secs:
  assumes "(length hs = 1 \<or> length hs = 2)" "list_all is_digit hs" "is_digit m1" "is_digit m2"
    "is_digit s1" "is_digit s2"
    "is_space sp" "ap = CHR ''A'' \<or> ap = CHR ''P''"
  shows "parse_time (hs @ [CHR '':'', m1, m2, CHR '':'', s1, s2, sp, ap, CHR ''M'']) =
     (Some (to24 (ap = CHR ''P'') (decimal hs)), Some (decimal [m1, m2]), Some (decimal [s1, s2]))"
proof -
  have ne: "hs \<noteq> []" using assms(1) by auto
  have "str_split (CHR '':'') ([m1, m2] @ CHR '':'' # [s1, s2, sp, ap, CHR ''M'']) = [m1, m2] # str_split (CHR '':'') [s1, s2, sp, ap, CHR ''M'']"
    using assms(3,4) is_digit_simps(1)[of m1] is_digit_simps(1)[of m2] by (intro str_split_append) auto
  then have sp: "str_split (CHR '':'') (hs @ [CHR '':'', m1, m2, CHR '':'', s1, s2, sp, ap, CHR ''M'']) =
      [hs, [m1, m2], [s1, s2, sp, ap, CHR ''M'']]"
    using assms by (simp add: str_split_append digits_no_colon str_split_no_sep is_digit_simps is_space_simps ap_simps)
  have "str_includes (CHR '':'' # s1 # s2 # sp # [ap, CHR ''M'']) ''PM'' = str_includes (sp # [ap, CHR ''M'']) ''PM''"
    using assms by (intro includes_PM_colon_digits)
  then have pm: "str_includes (hs @ [CHR '':'', m1, m2, CHR '':'', s1, s2, sp, ap, CHR ''M'']) ''PM'' = (ap = CHR ''P'')"
    using assms by (auto simp: includes_PM_digits is_digit_simps is_space_simps)
  have h: "parseInt hs = Some (decimal hs)" using ne assms(2) by (rule parseInt_digits)
  have m: "parseInt [m1, m2] = Some (decimal [m1, m2])"
    using assms by (intro parseInt_digits) simp_all
  have s: "parseInt [s1, s2] = Some (decimal [s1, s2])"
    using assms by (intro parseInt_digits) simp_all
  have r: "remove_ampm [s1, s2, sp, ap, CHR ''M''] = [s1, s2]" using assms by (intro remove_ampm_secs)
  show ?thesis
    unfolding parse_time_def sp pm
    by (simp add: Let_def parseInt_at_def h m s r to24_def del: remove_ampm.simps)
qed


lemma match_pattern_SomeD:
  assumes "match_pattern secs line = Some (d, t, s, c)"
  shows "date_shape d \<and> (\<exists>hs ts. t = hs @ ts \<and> (length hs = 1 \<or> length hs = 2) \<and>
            list_all is_digit hs \<and> time_tail_shape secs ts)"
proof -
  from assms obtain r0 sp r1 r2 where
    d: "date_shape (take 8 r0)" "d = take 8 r0" and mt: "match_time secs r1 = Some (t, r2)"
    by (auto simp: match_pattern_def split: list.splits if_splits option.splits)
  from match_time_SomeD[OF mt] d show ?thesis by blast
qed

lemma match_time_excl:
  assumes "match_time True s = Some a" "match_time False s = Some b"
  shows False
proof -
  define hl :: nat where "hl = (if 2 \<le> length s \<and> is_digit (s ! 1) then 2 else 1)"
  from assms(1) have 1: "time_tail_shape True (take 9 (drop hl s))"
    by (auto simp: match_time_def Let_def hl_def split: if_splits)
  from assms(2) have 2: "time_tail_shape False (take 6 (drop hl s))"
    by (auto simp: match_time_def Let_def hl_def split: if_splits)
  from 1 obtain x1 x2 x3 x4 x5 x6 x7 x8 where a: "take 9 (drop hl s) = [CHR '':'', x1, x2, CHR '':'', x3, x4, x5, x6, x7]"
    unfolding time_tail_shape_True by blast
  from 2 obtain sp y1 y2 y3 y4 where b: "take 6 (drop hl s) = [CHR '':'', y1, y2, sp, y3, y4]" "is_space sp"
    unfolding time_tail_shape_False by blast
  have "take 6 (take 9 (drop hl s)) = take 6 (drop hl s)" by simp
  with a b show False by (auto simp: is_space_def)
qed

lemma pattern_excl:
  assumes "customPattern line = Some a" "altPattern line = Some b"
  shows False
proof -
  from assms(1) obtain r0 c1 c2 r1 x where 1: "line = CHR ''['' # r0" "drop 8 r0 = c1 # c2 # r1"
      "match_time True r1 = Some x"
    by (auto simp: customPattern_def match_pattern_def split: list.splits if_splits option.splits)
  from assms(2) obtain r0' c1' c2' r1' y where 2: "line = CHR ''['' # r0'" "drop 8 r0' = c1' # c2' # r1'"
      "match_time False r1' = Some y"
    by (auto simp: altPattern_def match_pattern_def split: list.splits if_splits option.splits)
  from 1 2 have "r1 = r1'" by simp
  with 1(3) 2(3) show False using match_time_excl[of r1 x y] by simp
qed

lemma time_text_facts:
  assumes "(length hs = 1 \<or> length hs = 2)" "list_all is_digit hs" "ap = CHR ''A'' \<or> ap = CHR ''P''"
  shows "clock_hour (hs @ CHR '':'' # mid @ [ap, CHR ''M'']) = decimal hs"
    and "is_PM (hs @ CHR '':'' # mid @ [ap, CHR ''M'']) = (ap = CHR ''P'')"
proof -
  have "takeWhile is_digit (hs @ CHR '':'' # mid @ [ap, CHR ''M'']) = hs"
    using assms(2) by (simp add: takeWhile_append2 list_all_iff is_digit_def)
  then show "clock_hour (hs @ CHR '':'' # mid @ [ap, CHR ''M'']) = decimal hs"
    by (simp add: clock_hour_def)
  have "hs @ CHR '':'' # mid @ [ap, CHR ''M''] = (hs @ CHR '':'' # mid) @ [ap, CHR ''M'']" by simp
  then show "is_PM (hs @ CHR '':'' # mid @ [ap, CHR ''M'']) = (ap = CHR ''P'')"
    unfolding is_PM_def by (simp del: append_assoc append.simps)
qed

lemma digit_val_range: "is_digit c \<Longrightarrow> 0 \<le> digit_val c \<and> digit_val c \<le> 9"
  by (auto simp: is_digit_def digit_val_def)

lemma decimal_1: "decimal [a] = digit_val a"
  by (simp add: decimal_def)

lemma decimal_2: "decimal [a, b] = 10 * digit_val a + digit_val b"
  by (simp add: decimal_def)

lemma decimal_2_range: "is_digit a \<Longrightarrow> is_digit b \<Longrightarrow> 0 \<le> decimal [a, b] \<and> decimal [a, b] \<le> 99"
  using digit_val_range[of a] digit_val_range[of b] by (simp add: decimal_2)

lemma decimal_hour_range:
  assumes "(length hs = 1 \<or> length hs = 2)" "list_all is_digit hs"
  shows "0 \<le> decimal hs \<and> decimal hs \<le> 99"
proof -
  from digits_cases[OF assms] show ?thesis
  proof (elim disjE exE conjE)
    fix h1 assume "hs = [h1]" "is_digit h1"
    then show ?thesis using digit_val_range[of h1] by (simp add: decimal_1)
  next
    fix h1 h2 assume "hs = [h1, h2]" "is_digit h1" "is_digit h2"
    then show ?thesis using decimal_2_range[of h1 h2] by simp
  qed
qed

lemma header_time:
  assumes "match_pattern secs line = Some (d, t, s, c)"
  shows "\<exists>minute sec. parse_time t = (Some (to24 (is_PM t) (clock_hour t)), Some minute, Some sec) \<and>
     0 \<le> clock_hour t \<and> clock_hour t \<le> 99 \<and> 0 \<le> minute \<and> minute \<le> 99 \<and> 0 \<le> sec \<and> sec \<le> 99 \<and>
     (\<not> secs \<longrightarrow> sec = 0)"
proof -
  from match_pattern_SomeD[OF assms] obtain hs ts where
    t: "t = hs @ ts" and hs: "length hs = 1 \<or> length hs = 2" "list_all is_digit hs"
    and ts: "time_tail_shape secs ts" by blast
  note hr = decimal_hour_range[OF hs]
  show ?thesis
  proof (cases secs)
    case True
    with ts have "time_tail_shape True ts" by simp
    then obtain m1 m2 s1 s2 sp ap where
      ts': "ts = [CHR '':'', m1, m2, CHR '':'', s1, s2, sp, ap, CHR ''M'']" and
      dg: "is_digit m1" "is_digit m2" "is_digit s1" "is_digit s2" "is_space sp" "ap = CHR ''A'' \<or> ap = CHR ''P''"
      unfolding time_tail_shape_True by blast
    have tt: "t = hs @ CHR '':'' # [m1, m2, CHR '':'', s1, s2, sp] @ [ap, CHR ''M'']" using t ts' by simp
    have "parse_time t = (Some (to24 (ap = CHR ''P'') (decimal hs)), Some (decimal [m1, m2]), Some (decimal [s1, s2]))"
      unfolding t ts' by (rule parse_time_secs[OF hs dg])
    moreover have "clock_hour t = decimal hs" "is_PM t = (ap = CHR ''P'')"
      unfolding tt by (rule time_text_facts[OF hs dg(6)])+
    ultimately show ?thesis using hr decimal_2_range[OF dg(1,2)] decimal_2_range[OF dg(3,4)] True by simp
  next
    case False
    with ts have "time_tail_shape False ts" by simp
    then obtain m1 m2 sp ap where
      ts': "ts = [CHR '':'', m1, m2, sp, ap, CHR ''M'']" and
      dg: "is_digit m1" "is_digit m2" "is_space sp" "ap = CHR ''A'' \<or> ap = CHR ''P''"
      unfolding time_tail_shape_False by blast
    have tt: "t = hs @ CHR '':'' # [m1, m2, sp] @ [ap, CHR ''M'']" using t ts' by simp
    have "parse_time t = (Some (to24 (ap = CHR ''P'') (decimal hs)), Some (decimal [m1, m2]), Some 0)"
      unfolding t ts' by (rule parse_time_nosecs[OF hs dg])
    moreover have "clock_hour t = decimal hs" "is_PM t = (ap = CHR ''P'')"
      unfolding tt by (rule time_text_facts[OF hs dg(4)])+
    ultimately show ?thesis using hr decimal_2_range[OF dg(1,2)] by simp
  qed
qed






lemma parse_lines_alt: "parse_lines tza ls = finish (forEach_line tza 0 ls init_state)"
  by (simp add: parse_lines_def init_state_def)

lemma process_line_blank: "trim line = [] \<Longrightarrow> process_line tza st line i = st"
  by (simp add: process_line_def)

lemma process_line_header:
  "match_line line = Some m \<Longrightarrow>
     process_line tza st line i = st\<lparr> messages := finish st, currentMessage := Some (new_message tza m i) \<rparr>"
  using match_line_not_blank[of line m] by (simp add: process_line_def finish_def)

lemma process_line_cont:
  "match_line line = None \<Longrightarrow> trim line \<noteq> [] \<Longrightarrow> currentMessage st = Some cur \<Longrightarrow>
     process_line tza st line i = st\<lparr> currentMessage := Some (cur\<lparr> content := content cur @ [NL] @ line \<rparr>) \<rparr>"
  by (simp add: process_line_def)

lemma forEach_line_append:
  "forEach_line tza i (xs @ ys) st = forEach_line tza (i + length xs) ys (forEach_line tza i xs st)"
  by (induction xs arbitrary: i st) simp_all

lemma forEach_blank: "\<forall>l\<in>set bs. trim l = [] \<Longrightarrow> forEach_line tza i bs st = st"
  by (induction bs arbitrary: i) (simp_all add: process_line_blank)

lemma forEach_headers:
  "\<forall>l\<in>set ls. match_line l \<noteq> None \<Longrightarrow>
     finish (forEach_line tza i ls st) =
       finish st @ map (\<lambda>(j, l). new_message tza (the (match_line l)) j) (enumerate i ls)"
proof (induction ls arbitrary: i st)
  case Nil
  then show ?case by simp
next
  case (Cons l ls)
  then obtain m where m: "match_line l = Some m" by auto
  have "finish (process_line tza st l i) = finish st @ [new_message tza m i]"
    by (simp add: process_line_header[OF m] finish_def)
  with Cons m show ?case by simp
qed

lemma process_line_messages_prefix: "\<exists>r. messages (process_line tza st l i) = messages st @ r"
  by (simp add: process_line_def split: option.splits)

lemma forEach_messages_prefix: "\<exists>r. messages (forEach_line tza i ls st) = messages st @ r"
proof (induction ls arbitrary: i st)
  case Nil
  then show ?case by simp
next
  case (Cons l ls)
  obtain r1 where "messages (process_line tza st l i) = messages st @ r1"
    using process_line_messages_prefix by blast
  moreover obtain r2 where "messages (forEach_line tza (Suc i) ls (process_line tza st l i)) =
      messages (process_line tza st l i) @ r2" using Cons.IH by blast
  ultimately show ?case by simp
qed

lemma finish_messages_prefix: "\<exists>r. finish st = messages st @ r"
  by (simp add: finish_def split: option.splits)

subsection \<open>The claims about the parser\<close>

lemma is_AM_fact:
  assumes "ap = CHR ''A'' \<or> ap = CHR ''P''"
  shows "is_AM (hs @ CHR '':'' # mid @ [ap, CHR ''M'']) = (ap = CHR ''A'')"
proof -
  have "hs @ CHR '':'' # mid @ [ap, CHR ''M''] = (hs @ CHR '':'' # mid) @ [ap, CHR ''M'']" by simp
  then show ?thesis
    unfolding is_AM_def by (simp del: append_assoc append.simps)
qed

lemma header_AM_PM:
  assumes "match_pattern secs line = Some (d, t, s, c)"
  shows "is_AM t \<longleftrightarrow> \<not> is_PM t"
proof -
  from match_pattern_SomeD[OF assms] obtain hs ts where
    t: "t = hs @ ts" and hs: "length hs = 1 \<or> length hs = 2" "list_all is_digit hs"
    and ts: "time_tail_shape secs ts" by blast
  have "\<exists>mid ap. ts = CHR '':'' # mid @ [ap, CHR ''M''] \<and> (ap = CHR ''A'' \<or> ap = CHR ''P'')"
  proof (cases secs)
    case True
    with ts have "time_tail_shape True ts" by simp
    then obtain m1 m2 s1 s2 sp ap where
      "ts = CHR '':'' # [m1, m2, CHR '':'', s1, s2, sp] @ [ap, CHR ''M'']" "ap = CHR ''A'' \<or> ap = CHR ''P''"
      unfolding time_tail_shape_True by auto
    then show ?thesis by blast
  next
    case False
    with ts have "time_tail_shape False ts" by simp
    then obtain m1 m2 sp ap where
      "ts = CHR '':'' # [m1, m2, sp] @ [ap, CHR ''M'']" "ap = CHR ''A'' \<or> ap = CHR ''P''"
      unfolding time_tail_shape_False by auto
    then show ?thesis by blast
  qed
  then obtain mid ap where ts': "ts = CHR '':'' # mid @ [ap, CHR ''M'']" and ap: "ap = CHR ''A'' \<or> ap = CHR ''P''"
    by blast
  show ?thesis unfolding t ts' using is_AM_fact[OF ap, of hs mid] time_text_facts(2)[OF hs ap, of mid] ap
    by auto
qed

lemma forEach_conts_content:
  "\<forall>l\<in>set cs. match_line l = None \<Longrightarrow> currentMessage st = Some cur \<Longrightarrow>
     forEach_line tza i cs st = st\<lparr> currentMessage := Some (cur\<lparr> content := content cur @ folded cs \<rparr>) \<rparr>"
proof (induction cs arbitrary: i st cur)
  case Nil
  then show ?case by (simp add: folded_def)
next
  case (Cons l cs)
  show ?case
  proof (cases "trim l = []")
    case True
    then have "process_line tza st l i = st" by (rule process_line_blank)
    moreover have "folded (l # cs) = folded cs" using True by (simp add: folded_def)
    ultimately show ?thesis using Cons by simp
  next
    case False
    let ?cur = "cur\<lparr> content := content cur @ [NL] @ l \<rparr>"
    have p: "process_line tza st l i = st\<lparr> currentMessage := Some ?cur \<rparr>"
      using Cons.prems False by (simp add: process_line_cont)
    have f: "folded (l # cs) = NL # l @ folded cs" using False by (simp add: folded_def)
    have "forEach_line tza (Suc i) cs (st\<lparr> currentMessage := Some ?cur \<rparr>) =
        (st\<lparr> currentMessage := Some ?cur \<rparr>)\<lparr> currentMessage := Some (?cur\<lparr> content := content ?cur @ folded cs \<rparr>) \<rparr>"
      using Cons.prems by (intro Cons.IH) simp_all
    then show ?thesis by (simp add: p f)
  qed
qed

lemma new_message_fields:
  "date (new_message tza (d, t, s, c) i) = d"
  "time (new_message tza (d, t, s, c) i) = t"
  "sender (new_message tza (d, t, s, c) i) = trim s"
  "content (new_message tza (d, t, s, c) i) = c"
  "isMedia (new_message tza (d, t, s, c) i) = has_media_marker c"
  "isDeleted (new_message tza (d, t, s, c) i) = has_deleted_marker c"
  "lineNumber (new_message tza (d, t, s, c) i) = i + 1"
  by (simp_all add: new_message_def split: prod.splits)

text \<open>
  Claim C4. For a line that the parser accepts as a header, with time text \<open>t\<close>: the
  designator of \<open>t\<close> is either AM or PM; the hour passed to the \<open>Date\<close> constructor is 0
  for 12 AM, 12 for 12 PM, the hour field plus 12 for the PM hours 1 to 11, and the hour
  field itself for every AM hour other than 12; and the seconds are 0 when the line
  matches the pattern without seconds.
\<close>

theorem hour_conversion:
  assumes "match_line line = Some (d, t, s, c)"
  shows "\<exists>hour minute sec.
     parse_time t = (Some hour, Some minute, Some sec) \<and>
     timestamp (new_message tza (d, t, s, c) i) =
       (case parse_date d of (y, m, dd) \<Rightarrow> new_Date tza y m dd (Some hour) (Some minute) (Some sec)) \<and>
     (is_AM t \<longleftrightarrow> \<not> is_PM t) \<and>
     (is_AM t \<and> clock_hour t = 12 \<longrightarrow> hour = 0) \<and>
     (is_PM t \<and> clock_hour t = 12 \<longrightarrow> hour = 12) \<and>
     (is_PM t \<and> 1 \<le> clock_hour t \<and> clock_hour t \<le> 11 \<longrightarrow> hour = clock_hour t + 12) \<and>
     (is_AM t \<and> clock_hour t \<noteq> 12 \<longrightarrow> hour = clock_hour t) \<and>
     (altPattern line \<noteq> None \<longrightarrow> sec = 0)"
proof -
  have "\<exists>secs. match_pattern secs line = Some (d, t, s, c) \<and> (altPattern line \<noteq> None \<longrightarrow> \<not> secs)"
  proof (cases "customPattern line")
    case None
    with match_line_cases[OF assms] have "match_pattern False line = Some (d, t, s, c)"
      by (simp add: altPattern_def)
    then show ?thesis by blast
  next
    case (Some a)
    with match_line_cases[OF assms] have "match_pattern True line = Some (d, t, s, c)"
      by (simp add: customPattern_def)
    moreover have "altPattern line = None"
      using pattern_excl[OF Some] by (cases "altPattern line") auto
    ultimately show ?thesis by blast
  qed
  then obtain secs where
    mp: "match_pattern secs line = Some (d, t, s, c)" and alt: "altPattern line \<noteq> None \<longrightarrow> \<not> secs"
    by blast
  from header_time[OF mp] obtain minute sec where
    pt: "parse_time t = (Some (to24 (is_PM t) (clock_hour t)), Some minute, Some sec)"
    and sec: "\<not> secs \<longrightarrow> sec = 0" by blast
  have ts: "timestamp (new_message tza (d, t, s, c) i) =
       (case parse_date d of (y, m, dd) \<Rightarrow>
          new_Date tza y m dd (Some (to24 (is_PM t) (clock_hour t))) (Some minute) (Some sec))"
    by (simp add: new_message_def pt split: prod.splits)
  show ?thesis
    using pt ts header_AM_PM[OF mp] sec alt by (auto simp: to24_def)
qed

theorem hour_conversion_witness:
  "match_line ''[01/02/23, 09:15 PM] Alice: hi'' = Some (''01/02/23'', ''09:15 PM'', ''Alice'', ''hi'') \<and>
   (\<exists>minute. parse_time ''09:15 PM'' = (Some 21, Some minute, Some 0)) \<and>
   (\<exists>minute sec. parse_time ''12:30:00 AM'' = (Some 0, Some minute, Some sec)) \<and>
   (\<exists>minute sec. parse_time ''12:30:00 PM'' = (Some 12, Some minute, Some sec))"
proof -
  have h: "match_line ''[01/02/23, 09:15 PM] Alice: hi'' = Some (''01/02/23'', ''09:15 PM'', ''Alice'', ''hi'')"
    by code_simp
  have a: "altPattern ''[01/02/23, 09:15 PM] Alice: hi'' \<noteq> None" by code_simp
  have p: "is_PM ''09:15 PM''" by code_simp
  have c: "clock_hour ''09:15 PM'' = 9" by code_simp
  have 1: "\<exists>minute. parse_time ''09:15 PM'' = (Some 21, Some minute, Some 0)"
    using hour_conversion[OF h, of "\<lambda>_. 0" 0] a p c by auto
  have h2: "match_line ''[01/02/23, 12:30:00 AM] Alice: hi'' =
      Some (''01/02/23'', ''12:30:00 AM'', ''Alice'', ''hi'')"
    by code_simp
  have p2: "is_AM ''12:30:00 AM''" by code_simp
  have c2: "clock_hour ''12:30:00 AM'' = 12" by code_simp
  have 2: "\<exists>minute sec. parse_time ''12:30:00 AM'' = (Some 0, Some minute, Some sec)"
    using hour_conversion[OF h2, of "\<lambda>_. 0" 0] p2 c2 by auto
  have h3: "match_line ''[01/02/23, 12:30:00 PM] Alice: hi'' =
      Some (''01/02/23'', ''12:30:00 PM'', ''Alice'', ''hi'')"
    by code_simp
  have p3: "is_PM ''12:30:00 PM''" by code_simp
  have c3: "clock_hour ''12:30:00 PM'' = 12" by code_simp
  have 3: "\<exists>minute sec. parse_time ''12:30:00 PM'' = (Some 12, Some minute, Some sec)"
    using hour_conversion[OF h3, of "\<lambda>_. 0" 0] p3 c3 by auto
  show ?thesis using h 1 2 3 by (intro conjI)
qed

text \<open>
  Claim C5. A transcript whose lines all match a header pattern yields as many messages
  as it has lines, and the message at position \<open>i\<close> is the one opened by line \<open>i\<close>: it
  carries the line number \<open>i + 1\<close> and the content group of that line.
\<close>

theorem headers_only_in_order:
  assumes "\<forall>l\<in>set ls. match_line l \<noteq> None"
  shows "length (parse_lines tza ls) = length ls \<and>
     (\<forall>i<length ls. \<exists>d t s c. match_line (ls ! i) = Some (d, t, s, c) \<and>
        parse_lines tza ls ! i = new_message tza (d, t, s, c) i \<and>
        lineNumber (parse_lines tza ls ! i) = i + 1 \<and> content (parse_lines tza ls ! i) = c)"
proof -
  have eq: "parse_lines tza ls = map (\<lambda>(j, l). new_message tza (the (match_line l)) j) (enumerate 0 ls)"
    using forEach_headers[OF assms, of tza 0 init_state]
    by (simp add: parse_lines_alt) (simp add: finish_def init_state_def)
  have "\<exists>d t s c. match_line (ls ! i) = Some (d, t, s, c) \<and>
        parse_lines tza ls ! i = new_message tza (d, t, s, c) i \<and>
        lineNumber (parse_lines tza ls ! i) = i + 1 \<and> content (parse_lines tza ls ! i) = c"
    if "i < length ls" for i
  proof -
    from assms that obtain d t s c where m: "match_line (ls ! i) = Some (d, t, s, c)"
      by (metis nth_mem option.exhaust prod_cases4)
    have "parse_lines tza ls ! i = new_message tza (d, t, s, c) i"
      using that m by (simp add: eq nth_enumerate_eq)
    then show ?thesis using m by (simp add: new_message_fields)
  qed
  then show ?thesis by (simp add: eq)
qed

theorem headers_only_in_order_witness:
  "length (parse_lines utc_host [''[01/02/23, 09:15 PM] Alice: hi'', ''[01/02/23, 9:16:05 PM] Bob: yo'']) = 2 \<and>
   map content (parse_lines utc_host [''[01/02/23, 09:15 PM] Alice: hi'', ''[01/02/23, 9:16:05 PM] Bob: yo''])
     = [''hi'', ''yo'']"
proof -
  let ?ls = "[''[01/02/23, 09:15 PM] Alice: hi'', ''[01/02/23, 9:16:05 PM] Bob: yo'']"
  have h: "\<forall>l\<in>set ?ls. match_line l \<noteq> None" by code_simp
  have "map content (parse_lines utc_host ?ls) = [''hi'', ''yo'']" by code_simp
  with headers_only_in_order[OF h, of utc_host] show ?thesis by simp
qed

text \<open>
  Claim C6. A header line followed by two non-blank lines that match no header pattern
  yields exactly one message, whose content is the content of the header, a newline,
  the second line, a newline and the third line. Blank lines before, between and after
  these three lines change nothing but the line number: they neither close the open
  message nor add to it.
\<close>

theorem continuation_folding:
  assumes "match_line h = Some (d, t, s, c)"
    and "match_line l2 = None" "trim l2 \<noteq> []" "match_line l3 = None" "trim l3 \<noteq> []"
    and "\<forall>b\<in>set (b0 @ b1 @ b2 @ b3). trim b = []"
  shows "parse_lines tza (b0 @ [h] @ b1 @ [l2] @ b2 @ [l3] @ b3) =
     [(new_message tza (d, t, s, c) (length b0))\<lparr> content := c @ [NL] @ l2 @ [NL] @ l3 \<rparr>]"
proof -
  let ?N = "new_message tza (d, t, s, c) (length b0)"
  have b: "\<forall>b\<in>set b0. trim b = []" "\<forall>b\<in>set b1. trim b = []" "\<forall>b\<in>set b2. trim b = []"
    "\<forall>b\<in>set b3. trim b = []" using assms(6) by auto
  have 0: "forEach_line tza 0 b0 init_state = init_state" using b(1) by (rule forEach_blank)
  have 1: "process_line tza init_state h (length b0) =
      \<lparr> messages = [], currentMessage = Some ?N, warnings = [] \<rparr>"
    by (simp add: process_line_header[OF assms(1)] init_state_def finish_def)
  have 2: "process_line tza \<lparr> messages = [], currentMessage = Some ?N, warnings = [] \<rparr> l2 j =
      \<lparr> messages = [], currentMessage = Some (?N\<lparr> content := c @ NL # l2 \<rparr>), warnings = [] \<rparr>" for j
    using assms(2,3) by (simp add: process_line_cont new_message_fields)
  have 3: "process_line tza \<lparr> messages = [], currentMessage = Some (?N\<lparr> content := c @ NL # l2 \<rparr>), warnings = [] \<rparr> l3 j =
      \<lparr> messages = [], currentMessage = Some (?N\<lparr> content := c @ NL # l2 @ NL # l3 \<rparr>), warnings = [] \<rparr>" for j
    using assms(4,5) by (simp add: process_line_cont)
  show ?thesis
    unfolding parse_lines_alt
    by (simp add: forEach_line_append 0 1 2 3 forEach_blank[OF b(2)] forEach_blank[OF b(3)]
        forEach_blank[OF b(4)] finish_def)
qed

theorem continuation_folding_witness:
  "parse_lines utc_host ['''', ''[01/02/23, 09:15 PM] Alice: hi'', ''second line'', ''  '', ''third line''] =
     [(new_message utc_host (''01/02/23'', ''09:15 PM'', ''Alice'', ''hi'') 1)
        \<lparr> content := ''hi'' @ [NL] @ ''second line'' @ [NL] @ ''third line'' \<rparr>]"
proof -
  have h: "match_line ''[01/02/23, 09:15 PM] Alice: hi'' = Some (''01/02/23'', ''09:15 PM'', ''Alice'', ''hi'')"
    by code_simp
  have 2: "match_line ''second line'' = None" "trim ''second line'' \<noteq> []" by code_simp+
  have 3: "match_line ''third line'' = None" "trim ''third line'' \<noteq> []" by code_simp+
  have b: "\<forall>b\<in>set ([''''] @ [] @ [''  ''] @ []). trim b = []" by code_simp
  from continuation_folding[OF h 2 3 b, of utc_host] show ?thesis by simp
qed




text \<open>
  Claim C8. The message opened by a header \<open>h\<close> and extended by the lines \<open>cs\<close>, none of
  which is a header, up to the next header or the end of the input, appears in the
  result as the message built from \<open>h\<close> alone with only its content replaced: the
  content of the header followed by the folded lines. Its \<open>isMedia\<close> and \<open>isDeleted\<close>
  flags are those of the header's content, whatever the lines \<open>cs\<close> contain, and its
  timestamp, sender, date, time and line number are those set at the header.
\<close>

theorem flags_fixed_at_header:
  assumes "match_line h = Some (d, t, s, c)" and "\<forall>l\<in>set cs. match_line l = None"
    and "post = [] \<or> match_line (hd post) \<noteq> None"
  shows "\<exists>rest M. parse_lines tza (pre @ h # cs @ post) = parse_lines tza pre @ M # rest \<and>
     M = (new_message tza (d, t, s, c) (length pre))\<lparr> content := c @ folded cs \<rparr> \<and>
     isMedia M = has_media_marker c \<and> isDeleted M = has_deleted_marker c \<and>
     timestamp M = timestamp (new_message tza (d, t, s, c) (length pre)) \<and>
     sender M = trim s \<and> date M = d \<and> time M = t \<and> lineNumber M = length pre + 1"
proof -
  let ?N = "new_message tza (d, t, s, c) (length pre)"
  let ?M = "?N\<lparr> content := c @ folded cs \<rparr>"
  define st1 where "st1 = forEach_line tza 0 pre init_state"
  define st2 where "st2 = st1\<lparr> messages := finish st1, currentMessage := Some ?N \<rparr>"
  define st3 where "st3 = st2\<lparr> currentMessage := Some ?M \<rparr>"
  have p: "finish st1 = parse_lines tza pre" by (simp add: st1_def parse_lines_alt)
  have 2: "process_line tza st1 h (length pre) = st2"
    by (simp add: process_line_header[OF assms(1)] st2_def)
  have 3: "forEach_line tza i cs st2 = st3" for i
    using forEach_conts_content[OF assms(2), of st2 ?N tza i]
    by (simp add: st2_def st3_def new_message_fields)
  have all: "forEach_line tza 0 (pre @ h # cs @ post) init_state =
      forEach_line tza (Suc (length pre + length cs)) post st3"
    by (simp add: forEach_line_append st1_def[symmetric] 2 3)
  have f3: "finish st3 = parse_lines tza pre @ [?M]"
    by (simp add: st3_def st2_def finish_def p[symmetric])
  have "\<exists>rest. finish (forEach_line tza (Suc (length pre + length cs)) post st3) =
      parse_lines tza pre @ ?M # rest"
  proof (cases post)
    case Nil
    then show ?thesis using f3 by simp
  next
    case (Cons q qs)
    with assms(3) obtain m where m: "match_line q = Some m" by auto
    let ?st4 = "process_line tza st3 q (Suc (length pre + length cs))"
    have "messages ?st4 = parse_lines tza pre @ [?M]"
      by (simp add: process_line_header[OF m] f3)
    moreover obtain r where "messages (forEach_line tza (Suc (Suc (length pre + length cs))) qs ?st4) =
        messages ?st4 @ r" using forEach_messages_prefix by blast
    moreover obtain r' where "finish (forEach_line tza (Suc (Suc (length pre + length cs))) qs ?st4) =
        messages (forEach_line tza (Suc (Suc (length pre + length cs))) qs ?st4) @ r'"
      using finish_messages_prefix by blast
    ultimately show ?thesis using Cons by simp
  qed
  then show ?thesis
    unfolding parse_lines_alt[of tza "pre @ h # cs @ post"] all
    by (auto simp: new_message_fields)
qed

theorem flags_fixed_at_header_witness:
  "\<not> isMedia (hd (parse_lines utc_host [''[01/02/23, 09:15 PM] Alice: hi'', ''image omitted'',
       ''This message was deleted''])) \<and>
   \<not> isDeleted (hd (parse_lines utc_host [''[01/02/23, 09:15 PM] Alice: hi'', ''image omitted'',
       ''This message was deleted''])) \<and>
   content (hd (parse_lines utc_host [''[01/02/23, 09:15 PM] Alice: hi'', ''image omitted'',
       ''This message was deleted''])) = ''hi'' @ [NL] @ ''image omitted'' @ [NL] @ ''This message was deleted''"
proof -
  have h: "match_line ''[01/02/23, 09:15 PM] Alice: hi'' = Some (''01/02/23'', ''09:15 PM'', ''Alice'', ''hi'')"
    by code_simp
  have c: "\<forall>l\<in>set [''image omitted'', ''This message was deleted'']. match_line l = None" by code_simp
  have f: "folded [''image omitted'', ''This message was deleted''] =
      [NL] @ ''image omitted'' @ [NL] @ ''This message was deleted''" by code_simp
  have m: "has_media_marker ''hi'' = False" "has_deleted_marker ''hi'' = False" by code_simp+
  have e: "parse_lines utc_host [] = []" by code_simp
  from flags_fixed_at_header[OF h c, of "[]" utc_host "[]"] obtain rest M where
    "parse_lines utc_host [''[01/02/23, 09:15 PM] Alice: hi'', ''image omitted'', ''This message was deleted''] = M # rest"
    "content M = ''hi'' @ folded [''image omitted'', ''This message was deleted'']"
    "isMedia M = has_media_marker ''hi''" "isDeleted M = has_deleted_marker ''hi''"
    by (auto simp: e)
  then show ?thesis by (simp add: f m)
qed

section \<open>Properties of the analyzer\<close>

subsection \<open>Objects, days and the loops\<close>












lemma sortedDays_sorted: "sorted (sortedDays msgs)"
  by (simp add: sortedDays_def)











































subsection \<open>The claims about the analyzer\<close>








text \<open>
  Claim C9. On the empty message sequence \<open>analyzeWhatsAppChat\<close> raises, so that
  \<open>processAnalysis\<close> returns no report, and \<open>runPipeline\<close> aborts before the analysis.
\<close>

theorem empty_input_aborts:
  "analyzeWhatsAppChat tzu an [] = Inl TypeError \<and>
   processAnalysis tzu an [] = None \<and>
   runPipeline tzu an (Some []) = None \<and>
   runPipeline tzu an None = None"
  by (simp add: analyzeWhatsAppChat_def processAnalysis_def runPipeline_def)

theorem empty_input_aborts_witness:
  "analyzeWhatsAppChat utc_host neutral_scorer [] = Inl TypeError \<and>
   processAnalysis utc_host neutral_scorer [] = None \<and>
   runPipeline utc_host neutral_scorer (Some []) = None"
  using empty_input_aborts[of utc_host neutral_scorer] by simp



end
